theory Spec2Isabelle
  imports Complex_Main "HOL-Library.Sublist"
begin

section \<open>Runbook ingestion: a shallow embedding of functions/ingestion/index.js\<close>

text \<open>
  The ingestion function lists the files of a Drive folder, extracts their text, splits it
  into chunks, embeds the chunks in batches and upserts the vectors in batches. Every
  external service (Drive, pdf-parse, the text splitter, the embedding client, the index
  client) is a parameter of the model: a function that returns the service's answer or the
  exception it raises. Exceptions are values of a sum type (\<open>Inl\<close> the error), and every
  external call is appended to a call log, so that a statement about which calls a run makes
  is a statement about a list.
\<close>

subsection \<open>JavaScript values, errors and strings\<close>

datatype js_val =
    JUndefined
  | JNull
  | JBool bool
  | JNum int
  | JStr string
  | JArr "js_val list"
  | JObj "(string \<times> js_val) list"

text \<open>Truthiness, as \<open>if (v)\<close> and \<open>!v\<close> test it.\<close>

fun truthy :: "js_val \<Rightarrow> bool" where
  "truthy JUndefined = False"
| "truthy JNull = False"
| "truthy (JBool b) = b"
| "truthy (JNum n) = (n \<noteq> 0)"
| "truthy (JStr s) = (s \<noteq> [])"
| "truthy (JArr xs) = True"
| "truthy (JObj kvs) = True"

fun typeof :: "js_val \<Rightarrow> string" where
  "typeof JUndefined = ''undefined''"
| "typeof JNull = ''object''"
| "typeof (JBool b) = ''boolean''"
| "typeof (JNum n) = ''number''"
| "typeof (JStr s) = ''string''"
| "typeof (JArr xs) = ''object''"
| "typeof (JObj kvs) = ''object''"

fun the_string :: "js_val \<Rightarrow> string" where
  "the_string (JStr s) = s"
| "the_string v = []"

text \<open>Property access \<open>obj.key\<close> on an object literal: \<open>undefined\<close> when the key is absent.\<close>

definition get_prop :: "(string \<times> js_val) list \<Rightarrow> string \<Rightarrow> js_val" where
  "get_prop obj key = (case map_of obj key of None \<Rightarrow> JUndefined | Some v \<Rightarrow> v)"

text \<open>\<open>a || b\<close>.\<close>

definition js_or :: "js_val \<Rightarrow> js_val \<Rightarrow> js_val" where
  "js_or a b = (if truthy a then a else b)"

text \<open>A thrown \<open>Error\<close>, with its \<open>message\<close>.\<close>

datatype error = Error string

fun message :: "error \<Rightarrow> string" where
  "message (Error m) = m"

definition digit_char :: "nat \<Rightarrow> char" where
  "digit_char d =
     (if d = 0 then CHR ''0'' else if d = 1 then CHR ''1'' else if d = 2 then CHR ''2''
      else if d = 3 then CHR ''3'' else if d = 4 then CHR ''4'' else if d = 5 then CHR ''5''
      else if d = 6 then CHR ''6'' else if d = 7 then CHR ''7'' else if d = 8 then CHR ''8''
      else CHR ''9'')"

text \<open>The decimal numeral a template literal prints for a non-negative integer.\<close>

function string_of_nat :: "nat \<Rightarrow> string" where
  "string_of_nat n =
     (if n < 10 then [digit_char n] else string_of_nat (n div 10) @ [digit_char (n mod 10)])"
  by pat_completeness auto
termination
  by (relation "measure (\<lambda>n. n)") auto

definition string_of_int :: "int \<Rightarrow> string" where
  "string_of_int i = (if i < 0 then CHR ''-'' # string_of_nat (nat (- i)) else string_of_nat (nat i))"

text \<open>
  \<open>`${v}`\<close> for the values the summary message interpolates: numbers, strings, and the
  fixed renderings of \<open>undefined\<close>, \<open>null\<close>, booleans and plain objects. An array prints
  its elements joined by commas.
\<close>

fun join_with :: "string \<Rightarrow> string list \<Rightarrow> string" where
  "join_with sep [] = []"
| "join_with sep [x] = x"
| "join_with sep (x # y # ys) = x @ sep @ join_with sep (y # ys)"

fun template :: "js_val \<Rightarrow> string" where
  "template JUndefined = ''undefined''"
| "template JNull = ''null''"
| "template (JBool b) = (if b then ''true'' else ''false'')"
| "template (JNum n) = string_of_int n"
| "template (JStr s) = s"
| "template (JArr xs) =
     join_with '','' (map (\<lambda>x. if x = JUndefined \<or> x = JNull then [] else template x) xs)"
| "template (JObj kvs) = ''[object Object]''"

subsection \<open>Configuration constants\<close>

definition CHUNK_SIZE :: nat where
  "CHUNK_SIZE = 1000"

definition CHUNK_OVERLAP :: nat where
  "CHUNK_OVERLAP = 150"

definition EMBEDDING_BATCH_SIZE :: nat where
  "EMBEDDING_BATCH_SIZE = 200"

definition UPSERT_BATCH_SIZE :: nat where
  "UPSERT_BATCH_SIZE = 100"

record file_config =
  exportMimeType :: "string option"
  parser :: "string option"

definition SUPPORTED_MIME_TYPES :: "(string \<times> file_config) list" where
  "SUPPORTED_MIME_TYPES =
     [(''application/vnd.google-apps.document'',
         \<lparr>exportMimeType = Some ''text/plain'', parser = Some ''text''\<rparr>),
      (''text/plain'', \<lparr>exportMimeType = None, parser = Some ''text''\<rparr>),
      (''text/markdown'', \<lparr>exportMimeType = None, parser = Some ''text''\<rparr>),
      (''application/pdf'', \<lparr>exportMimeType = None, parser = Some ''pdf''\<rparr>)]"

text \<open>
  \<open>SUPPORTED_MIME_TYPES[file.mimeType]\<close> is a property read on an object literal, so a
  name that \<open>Object.prototype\<close> defines is found too: its value is a function or an object,
  truthy, with neither a \<open>parser\<close> nor an \<open>exportMimeType\<close>.
\<close>

definition Object_prototype_names :: "string list" where
  "Object_prototype_names =
     [''constructor'', ''__defineGetter__'', ''__defineSetter__'', ''hasOwnProperty'',
      ''__lookupGetter__'', ''__lookupSetter__'', ''isPrototypeOf'', ''propertyIsEnumerable'',
      ''toString'', ''valueOf'', ''__proto__'', ''toLocaleString'']"

definition lookup_mime_type :: "string \<Rightarrow> file_config option" where
  "lookup_mime_type mt =
     (case map_of SUPPORTED_MIME_TYPES mt of
        Some c \<Rightarrow> Some c
      | None \<Rightarrow>
          if mt \<in> set Object_prototype_names
          then Some \<lparr>exportMimeType = None, parser = None\<rparr>
          else None)"

subsection \<open>Data\<close>

record drive_file =
  file_id :: string
  file_name :: string
  mimeType :: string

record metadata =
  md_source :: string
  md_name :: string
  md_id :: string

text \<open>A LangChain \<open>Document\<close>: one chunk.\<close>

record document =
  pageContent :: string
  metadata :: metadata

record embedded_chunk =
  ec_id :: string
  embedding :: "real list"
  ec_metadata :: metadata
  ec_pageContent :: string

record datapoint =
  datapointId :: string
  featureVector :: "real list"

record upsert_request =
  indexEndpoint :: string
  datapoints :: "datapoint list"

record config =
  driveServiceAccountCredentials :: js_val
  googleDriveFolderId :: string
  vertexAiIndexId :: string
  vertexAiIndexEndpointId :: string
  gcpProjectId :: string
  gcpRegion :: string
  vertexAiEmbeddingModelName :: string

record list_response =
  resp_files :: "drive_file list option"
  nextPageToken :: "string option"

subsection \<open>The external services and the call log\<close>

text \<open>
  \<open>files_list q pageToken\<close>, \<open>files_export fileId mimeType\<close> and
  \<open>files_get fileId responseType\<close> answer with \<open>res.data\<close> or raise. A response that is
  \<open>null\<close> or \<open>undefined\<close> raises at the read of \<open>.data\<close>, and a listing response
  without \<open>data\<close> raises at the read of \<open>.files\<close>, both inside the same \<open>try\<close>: they
  are \<open>Inl\<close> here. A download response without \<open>data\<close> answers \<open>JUndefined\<close>.
\<close>

record drive_api =
  files_list :: "string \<Rightarrow> string option \<Rightarrow> error + list_response"
  files_export :: "string \<Rightarrow> string \<Rightarrow> error + js_val"
  files_get :: "string \<Rightarrow> string \<Rightarrow> error + js_val"

text \<open>
  The world a run executes in.
  \<^item> \<open>getConfig\<close>: what loading the configuration returns, or the error it throws.
  \<^item> \<open>drive_auth_error\<close>, \<open>vertex_init_error\<close>: the exception raised while the Drive
    client, respectively the Vertex AI clients, are constructed, if any.
  \<^item> \<open>pdf\<close>: pdf-parse, from the downloaded bytes to the \<open>text\<close> of its result.
  \<^item> \<open>createDocuments\<close>: the method of the RecursiveCharacterTextSplitter of the langchain
    library, built with \<open>CHUNK_SIZE\<close> and \<open>CHUNK_OVERLAP\<close>. It is an \<open>async\<close> method: a call
    returns a Promise at once, which settles later to the texts of the chunks or to an error.
  \<^item> \<open>embedDocuments k texts\<close>: the answer of the embedding client to its \<open>k\<close>-th call
    of the run (counted from 0), so that a service may fail on one call and succeed on
    the next. An answer that is \<open>null\<close> or \<open>undefined\<close> raises at
    \<open>batchEmbeddings.length\<close>, inside the same \<open>try\<close>, and is an \<open>Inl\<close> here.
  \<^item> \<open>indexEndpointPath\<close>: the path-template helper of the index client.
  \<^item> \<open>upsertDatapoints k request\<close>: the answer of the index client to its \<open>k\<close>-th call.
\<close>

datatype 'a promise = Promise "error + 'a"

record env =
  getConfig :: "error + config"
  drive_auth_error :: "error option"
  vertex_init_error :: "error option"
  drive :: drive_api
  pdf :: "js_val \<Rightarrow> error + js_val"
  createDocuments :: "string \<Rightarrow> string list promise"
  embedDocuments :: "nat \<Rightarrow> string list \<Rightarrow> error + real list list"
  indexEndpointPath :: "string \<Rightarrow> string \<Rightarrow> string \<Rightarrow> string"
  upsertDatapoints :: "nat \<Rightarrow> upsert_request \<Rightarrow> error + unit"

datatype event =
    ListCall string "string option"
  | ExportCall string string
  | GetCall string string
  | PdfCall
  | SplitCall string
  | EmbedCall "string list"
  | UpsertCall upsert_request


subsection \<open>listDriveFiles\<close>

definition quote :: string where
  "quote = [CHR 0x27]"

definition mimeTypeQuery :: string where
  "mimeTypeQuery =
     join_with '' or ''
       (map (\<lambda>mt. ''mimeType='' @ quote @ mt @ quote) (map fst SUPPORTED_MIME_TYPES))"

definition list_query :: "string \<Rightarrow> string" where
  "list_query folderId =
     quote @ folderId @ quote @ '' in parents and ('' @ mimeTypeQuery @ '') and trashed = false''"

text \<open>
  The \<open>do ... while (pageToken)\<close> loop. It runs for as long as the service hands out a
  non-empty continuation token, so it need not end: the result is \<open>None\<close> when it does
  not. An exception of any page makes the whole listing fail, with the wrapped message.
\<close>

partial_function (option) listDriveFiles_loop ::
  "drive_api \<Rightarrow> string \<Rightarrow> string option \<Rightarrow> drive_file list \<Rightarrow> event list
     \<Rightarrow> ((error + drive_file list) \<times> event list) option" where
  "listDriveFiles_loop api query pageToken files calls =
     (case files_list api query pageToken of
        Inl e \<Rightarrow>
          Some (Inl (Error (''Failed to list files: '' @ message e)),
                calls @ [ListCall query pageToken])
      | Inr res \<Rightarrow>
          (let files' = (case resp_files res of None \<Rightarrow> files | Some fs \<Rightarrow> files @ fs);
               pageToken' = nextPageToken res
           in if pageToken' \<noteq> None \<and> pageToken' \<noteq> Some []
              then listDriveFiles_loop api query pageToken' files' (calls @ [ListCall query pageToken])
              else Some (Inr files', calls @ [ListCall query pageToken])))"

declare listDriveFiles_loop.simps [code]

definition listDriveFiles ::
  "drive_api \<Rightarrow> string \<Rightarrow> ((error + drive_file list) \<times> event list) option" where
  "listDriveFiles api folderId = listDriveFiles_loop api (list_query folderId) None [] []"

subsection \<open>getFileContent\<close>

text \<open>\<open>typeof response.data === 'string' ? response.data : ''\<close>\<close>

definition string_or_empty :: "js_val \<Rightarrow> js_val" where
  "string_or_empty d = (if typeof d = ''string'' then d else JStr [])"

text \<open>
  The \<open>try\<close> block: the value it returns, \<open>None\<close> when it falls through (no parser
  matched), or the exception that leaves it.
\<close>

definition getFileContent_try ::
  "drive_api \<Rightarrow> (js_val \<Rightarrow> error + js_val) \<Rightarrow> drive_file \<Rightarrow> file_config
     \<Rightarrow> (error + js_val option) \<times> event list" where
  "getFileContent_try api pdf_parse file fileConfig =
     (if parser fileConfig = Some ''text'' then
        (case exportMimeType fileConfig of
           Some emt \<Rightarrow>
             (case files_export api (file_id file) emt of
                Inl e \<Rightarrow> (Inl e, [ExportCall (file_id file) emt])
              | Inr d \<Rightarrow> (Inr (Some (string_or_empty d)), [ExportCall (file_id file) emt]))
         | None \<Rightarrow>
             (case files_get api (file_id file) ''text'' of
                Inl e \<Rightarrow> (Inl e, [GetCall (file_id file) ''text''])
              | Inr d \<Rightarrow> (Inr (Some (string_or_empty d)), [GetCall (file_id file) ''text''])))
      else if parser fileConfig = Some ''pdf'' then
        (case files_get api (file_id file) ''arraybuffer'' of
           Inl e \<Rightarrow> (Inl e, [GetCall (file_id file) ''arraybuffer''])
         | Inr d \<Rightarrow>
             (case pdf_parse d of
                Inl e \<Rightarrow> (Inl e, [GetCall (file_id file) ''arraybuffer'', PdfCall])
              | Inr text \<Rightarrow> (Inr (Some text), [GetCall (file_id file) ''arraybuffer'', PdfCall])))
      else (Inr None, []))"

text \<open>
  The whole function: \<open>null\<close> for an unsupported type, the \<open>catch\<close> turns every
  exception of the block into \<open>null\<close>, and so does the last line when the block falls
  through.
\<close>

definition getFileContent ::
  "drive_api \<Rightarrow> (js_val \<Rightarrow> error + js_val) \<Rightarrow> drive_file \<Rightarrow> js_val \<times> event list" where
  "getFileContent api pdf_parse file =
     (case lookup_mime_type (mimeType file) of
        None \<Rightarrow> (JNull, [])
      | Some fileConfig \<Rightarrow>
          (case getFileContent_try api pdf_parse file fileConfig of
             (Inl e, calls) \<Rightarrow> (JNull, calls)
           | (Inr (Some v), calls) \<Rightarrow> (v, calls)
           | (Inr None, calls) \<Rightarrow> (JNull, calls)))"

subsection \<open>splitText\<close>

text \<open>
  The guard returns the empty array. Past the guard, \<open>createDocuments\<close> is called without
  \<open>await\<close>, so \<open>documents\<close> is a Promise, and a Promise has no \<open>forEach\<close>: the call
  \<open>documents.forEach(...)\<close> throws a TypeError. The callback that would write
  \<open>metadata.id\<close> never runs and the \<open>return documents\<close> below it is never reached.
  Nothing in \<open>splitText\<close> catches the error.
\<close>

definition splitText ::
  "(string \<Rightarrow> string list promise) \<Rightarrow> js_val \<Rightarrow> drive_file
     \<Rightarrow> (error + document list) \<times> event list" where
  "splitText splitter text file =
     (if \<not> truthy text \<or> typeof text \<noteq> ''string'' then (Inr [], [])
      else
        (case splitter (the_string text) of
           Promise settles \<Rightarrow>
             (Inl (Error ''documents.forEach is not a function''),
              [SplitCall (the_string text)])))"

subsection \<open>embedChunks\<close>

text \<open>\<open>xs.slice(start, stop)\<close> for \<open>0 \<le> start \<le> stop\<close>.\<close>

definition slice :: "'a list \<Rightarrow> nat \<Rightarrow> nat \<Rightarrow> 'a list" where
  "slice xs start stop = take (stop - start) (drop start xs)"

text \<open>
  The \<open>try\<close> block of one batch: the records it pushes, or the exception that leaves it.
  Nothing is pushed before the length check, so a failed batch pushes nothing.
\<close>

definition embed_batch ::
  "(nat \<Rightarrow> string list \<Rightarrow> error + real list list) \<Rightarrow> nat \<Rightarrow> document list
     \<Rightarrow> error + embedded_chunk list" where
  "embed_batch client k batch =
     (case client k (map pageContent batch) of
        Inl e \<Rightarrow> Inl e
      | Inr batchEmbeddings \<Rightarrow>
          if length batchEmbeddings \<noteq> length batch
          then Inl (Error ''Mismatch between number of texts and embeddings returned.'')
          else Inr (map (\<lambda>(chunk, index).
                           \<lparr>ec_id = md_id (metadata chunk),
                            embedding = batchEmbeddings ! index,
                            ec_metadata = metadata chunk,
                            ec_pageContent = pageContent chunk\<rparr>)
                        (zip batch [0..<length batch])))"

text \<open>
  The \<open>for\<close> loop, from index \<open>i\<close>, with the records pushed and the requests sent so far.
  The \<open>catch\<close> logs and goes on with the next batch.
\<close>

function embedChunks_loop ::
  "(nat \<Rightarrow> string list \<Rightarrow> error + real list list) \<Rightarrow> document list \<Rightarrow> nat
     \<Rightarrow> embedded_chunk list \<Rightarrow> string list list \<Rightarrow> embedded_chunk list \<times> string list list" where
  "embedChunks_loop client chunks i embeddedChunks sent =
     (if i < length chunks then
        (let batch = slice chunks i (i + EMBEDDING_BATCH_SIZE);
             batchTexts = map pageContent batch
         in case embed_batch client (length sent) batch of
              Inl e \<Rightarrow>
                embedChunks_loop client chunks (i + EMBEDDING_BATCH_SIZE)
                  embeddedChunks (sent @ [batchTexts])
            | Inr pushed \<Rightarrow>
                embedChunks_loop client chunks (i + EMBEDDING_BATCH_SIZE)
                  (embeddedChunks @ pushed) (sent @ [batchTexts]))
      else (embeddedChunks, sent))"
  by pat_completeness auto
termination
  by (relation "measure (\<lambda>(client, chunks, i, embeddedChunks, sent). length chunks - i)")
     (auto simp: EMBEDDING_BATCH_SIZE_def)

definition embedChunks ::
  "document list \<Rightarrow> (nat \<Rightarrow> string list \<Rightarrow> error + real list list)
     \<Rightarrow> embedded_chunk list \<times> string list list" where
  "embedChunks chunks client = embedChunks_loop client chunks 0 [] []"

subsection \<open>upsertVectors\<close>

definition to_datapoint :: "embedded_chunk \<Rightarrow> datapoint" where
  "to_datapoint chunk = \<lparr>datapointId = ec_id chunk, featureVector = embedding chunk\<rparr>"

text \<open>
  The \<open>for\<close> loop, from index \<open>i\<close>, with \<open>upsertedCount\<close> and the requests sent so far.
  Each batch is sent once; the \<open>catch\<close> logs and goes on with the next batch.
\<close>

function upsertVectors_loop ::
  "(nat \<Rightarrow> upsert_request \<Rightarrow> error + unit) \<Rightarrow> string \<Rightarrow> embedded_chunk list \<Rightarrow> nat
     \<Rightarrow> nat \<Rightarrow> upsert_request list \<Rightarrow> nat \<times> upsert_request list" where
  "upsertVectors_loop client endpoint embeddedChunks i upsertedCount sent =
     (if i < length embeddedChunks then
        (let batch = slice embeddedChunks i (i + UPSERT_BATCH_SIZE);
             request = \<lparr>indexEndpoint = endpoint, datapoints = map to_datapoint batch\<rparr>
         in case client (length sent) request of
              Inl e \<Rightarrow>
                upsertVectors_loop client endpoint embeddedChunks (i + UPSERT_BATCH_SIZE)
                  upsertedCount (sent @ [request])
            | Inr response \<Rightarrow>
                upsertVectors_loop client endpoint embeddedChunks (i + UPSERT_BATCH_SIZE)
                  (upsertedCount + length batch) (sent @ [request]))
      else (upsertedCount, sent))"
  by pat_completeness auto
termination
  by (relation "measure (\<lambda>(client, endpoint, embeddedChunks, i, upsertedCount, sent).
                           length embeddedChunks - i)")
     (auto simp: UPSERT_BATCH_SIZE_def)

text \<open>
  The function returns nothing; the model returns what it logs (\<open>upsertedCount\<close>) and
  the requests it sent.
\<close>

definition upsertVectors ::
  "embedded_chunk list \<Rightarrow> config \<Rightarrow> (string \<Rightarrow> string \<Rightarrow> string \<Rightarrow> string)
     \<Rightarrow> (nat \<Rightarrow> upsert_request \<Rightarrow> error + unit) \<Rightarrow> nat \<times> upsert_request list" where
  "upsertVectors embeddedChunks cfg path client =
     upsertVectors_loop client
       (path (gcpProjectId cfg) (gcpRegion cfg) (vertexAiIndexEndpointId cfg))
       embeddedChunks 0 0 []"

subsection \<open>runIngestion\<close>

definition requiredConfig :: "string list" where
  "requiredConfig =
     [''driveServiceAccountCredentials'', ''googleDriveFolderId'', ''vertexAiIndexId'',
      ''vertexAiIndexEndpointId'', ''gcpProjectId'', ''gcpRegion'',
      ''vertexAiEmbeddingModelName'']"

text \<open>\<open>config[key]\<close>\<close>

definition config_prop :: "config \<Rightarrow> string \<Rightarrow> js_val" where
  "config_prop cfg key =
     (if key = ''driveServiceAccountCredentials'' then driveServiceAccountCredentials cfg
      else if key = ''googleDriveFolderId'' then JStr (googleDriveFolderId cfg)
      else if key = ''vertexAiIndexId'' then JStr (vertexAiIndexId cfg)
      else if key = ''vertexAiIndexEndpointId'' then JStr (vertexAiIndexEndpointId cfg)
      else if key = ''gcpProjectId'' then JStr (gcpProjectId cfg)
      else if key = ''gcpRegion'' then JStr (gcpRegion cfg)
      else if key = ''vertexAiEmbeddingModelName'' then JStr (vertexAiEmbeddingModelName cfg)
      else JUndefined)"

definition missingConfig :: "config \<Rightarrow> string list" where
  "missingConfig cfg = filter (\<lambda>key. \<not> truthy (config_prop cfg key)) requiredConfig"

definition prepend_calls :: "event list \<Rightarrow> 'a \<times> event list \<Rightarrow> 'a \<times> event list" where
  "prepend_calls cs r = (fst r, cs @ snd r)"

text \<open>
  The loop over the listed files, with \<open>allChunks\<close> and \<open>filesProcessed\<close>. An
  exception of \<open>splitText\<close> leaves the loop: the loop body has no handler.
\<close>

fun process_files ::
  "env \<Rightarrow> drive_file list \<Rightarrow> document list \<Rightarrow> nat
     \<Rightarrow> (error + document list \<times> nat) \<times> event list" where
  "process_files w [] allChunks filesProcessed = (Inr (allChunks, filesProcessed), [])"
| "process_files w (file # rest) allChunks filesProcessed =
     (let content = getFileContent (drive w) (pdf w) file in
      if truthy (fst content) then
        (let chunks = splitText (createDocuments w) (fst content) file in
         case fst chunks of
           Inl e \<Rightarrow> (Inl e, snd content @ snd chunks)
         | Inr cs \<Rightarrow>
             if length cs > 0
             then prepend_calls (snd content @ snd chunks)
                    (process_files w rest (allChunks @ cs) (filesProcessed + 1))
             else prepend_calls (snd content @ snd chunks)
                    (process_files w rest allChunks filesProcessed))
      else prepend_calls (snd content) (process_files w rest allChunks filesProcessed))"

text \<open>Steps 2 to 4, once the listing has returned \<open>files\<close>, and the object returned.\<close>

definition after_listing ::
  "env \<Rightarrow> config \<Rightarrow> drive_file list \<Rightarrow> (error + (string \<times> js_val) list) \<times> event list" where
  "after_listing w cfg files =
     (case process_files w files [] 0 of
        (Inl e, calls1) \<Rightarrow> (Inl e, calls1)
      | (Inr (allChunks, filesProcessed), calls1) \<Rightarrow>
          if length allChunks > 0 then
            (case embedChunks allChunks (embedDocuments w) of
               (embeddedChunks, sent) \<Rightarrow>
                 if length embeddedChunks > 0 then
                   (case upsertVectors embeddedChunks cfg (indexEndpointPath w)
                           (upsertDatapoints w) of
                      (upsertedCount, sent2) \<Rightarrow>
                        (Inr [(''filesProcessed'', JNum (int filesProcessed)),
                              (''chunksGenerated'', JNum (int (length allChunks))),
                              (''chunksEmbedded'', JNum (int (length embeddedChunks)))],
                         calls1 @ map EmbedCall sent @ map UpsertCall sent2))
                 else
                   (Inr [(''filesProcessed'', JNum (int filesProcessed)),
                         (''chunksGenerated'', JNum (int (length allChunks))),
                         (''chunksEmbedded'', JNum 0),
                         (''status'', JStr ''No chunks embedded'')],
                    calls1 @ map EmbedCall sent))
          else
            (Inr [(''filesProcessed'', JNum (int filesProcessed)),
                  (''chunksGenerated'', JNum 0),
                  (''status'', JStr ''No chunks generated'')],
             calls1))"

text \<open>The \<open>try\<close> of the processing steps; its \<open>catch\<close> logs and throws the error again.\<close>

definition processing_steps ::
  "env \<Rightarrow> config \<Rightarrow> ((error + (string \<times> js_val) list) \<times> event list) option" where
  "processing_steps w cfg =
     (case listDriveFiles (drive w) (googleDriveFolderId cfg) of
        None \<Rightarrow> None
      | Some (Inl e, calls0) \<Rightarrow> Some (Inl e, calls0)
      | Some (Inr files, calls0) \<Rightarrow> Some (prepend_calls calls0 (after_listing w cfg files)))"

text \<open>
  The steps before the processing: load the configuration, check the required keys, build
  the clients; each failure is thrown.
\<close>

definition initialise :: "env \<Rightarrow> error + config" where
  "initialise w =
     (case getConfig w of
        Inl e \<Rightarrow> Inl e
      | Inr cfg \<Rightarrow>
          if length (missingConfig cfg) > 0
          then Inl (Error (''Missing required configuration keys: ''
                            @ join_with '', '' (missingConfig cfg)))
          else
            (case drive_auth_error w of
               Some e \<Rightarrow> Inl e
             | None \<Rightarrow> (case vertex_init_error w of Some e \<Rightarrow> Inl e | None \<Rightarrow> Inr cfg)))"

definition runIngestion ::
  "env \<Rightarrow> ((error + (string \<times> js_val) list) \<times> event list) option" where
  "runIngestion w =
     (case initialise w of
        Inl e \<Rightarrow> Some (Inl e, [])
      | Inr cfg \<Rightarrow> processing_steps w cfg)"

subsection \<open>The HTTP function\<close>

record http_response =
  status_code :: nat
  body :: js_val

definition summary_message :: "(string \<times> js_val) list \<Rightarrow> string" where
  "summary_message result =
     ''Ingestion completed successfully. Processed ''
     @ template (get_prop result ''filesProcessed'')
     @ '' files, generated ''
     @ template (get_prop result ''chunksGenerated'')
     @ '' chunks, embedded ''
     @ template (js_or (get_prop result ''chunksEmbedded'') (JNum 0))
     @ '' chunks.''"

definition respond :: "error + (string \<times> js_val) list \<Rightarrow> http_response" where
  "respond outcome =
     (case outcome of
        Inr result \<Rightarrow>
          \<lparr>status_code = 200,
           body = JObj [(''status'', JStr ''success''),
                        (''message'', JStr (summary_message result)),
                        (''result'', JObj result)]\<rparr>
      | Inl e \<Rightarrow>
          \<lparr>status_code = 500,
           body = JObj [(''status'', JStr ''error''),
                        (''message'', JStr (''Ingestion failed: '' @ message e))]\<rparr>)"

text \<open>The response sent and the calls made, when the run ends.\<close>

definition runbookIngestionHttp :: "env \<Rightarrow> (http_response \<times> event list) option" where
  "runbookIngestionHttp w =
     (case runIngestion w of
        None \<Rightarrow> None
      | Some (outcome, calls) \<Rightarrow> Some (respond outcome, calls))"

declare string_of_nat.simps [simp del]
declare embedChunks_loop.simps [simp del]
declare upsertVectors_loop.simps [simp del]

section \<open>Specification-side definitions\<close>

text \<open>
  What the specification says about batching, stated on lists: a list cut into consecutive
  batches of \<open>n\<close> elements, the last one holding what is left.
\<close>

function batches_of :: "nat \<Rightarrow> 'a list \<Rightarrow> 'a list list" where
  "batches_of n xs = (if n = 0 \<or> xs = [] then [] else take n xs # batches_of n (drop n xs))"
  by pat_completeness auto
termination
  by (relation "measure (\<lambda>(n, xs). length xs)") auto

declare batches_of.simps [simp del]

text \<open>
  The embedded records the specification expects of one batch, sent as the \<open>k\<close>-th request:
  none when the call fails or answers with the wrong number of vectors, and otherwise the
  batch's chunks, each with the vector at its own position of the answer.
\<close>

definition batch_output ::
  "(nat \<Rightarrow> string list \<Rightarrow> error + real list list) \<Rightarrow> nat \<Rightarrow> document list
     \<Rightarrow> embedded_chunk list" where
  "batch_output client k batch =
     (case client k (map pageContent batch) of
        Inl e \<Rightarrow> []
      | Inr vectors \<Rightarrow>
          if length vectors \<noteq> length batch then []
          else map (\<lambda>(chunk, v).
                      \<lparr>ec_id = md_id (metadata chunk), embedding = v,
                       ec_metadata = metadata chunk, ec_pageContent = pageContent chunk\<rparr>)
                   (zip batch vectors))"

fun batch_outputs ::
  "(nat \<Rightarrow> string list \<Rightarrow> error + real list list) \<Rightarrow> nat \<Rightarrow> document list list
     \<Rightarrow> embedded_chunk list" where
  "batch_outputs client k [] = []"
| "batch_outputs client k (b # bs) = batch_output client k b @ batch_outputs client (Suc k) bs"

text \<open>What an embedded record carries over from its chunk, and the same data of a chunk.\<close>

definition carried :: "embedded_chunk \<Rightarrow> string \<times> metadata \<times> string" where
  "carried r = (ec_id r, ec_metadata r, ec_pageContent r)"

definition source_of :: "document \<Rightarrow> string \<times> metadata \<times> string" where
  "source_of c = (md_id (metadata c), metadata c, pageContent c)"

text \<open>The request of one upsert batch, and the sizes of the batches whose one call succeeds.\<close>

definition request_of :: "string \<Rightarrow> embedded_chunk list \<Rightarrow> upsert_request" where
  "request_of endpoint batch = \<lparr>indexEndpoint = endpoint, datapoints = map to_datapoint batch\<rparr>"

fun succeeded_total ::
  "(nat \<Rightarrow> upsert_request \<Rightarrow> error + unit) \<Rightarrow> string \<Rightarrow> nat \<Rightarrow> embedded_chunk list list
     \<Rightarrow> nat" where
  "succeeded_total client endpoint k [] = 0"
| "succeeded_total client endpoint k (b # bs) =
     (case client k (request_of endpoint b) of Inl e \<Rightarrow> 0 | Inr u \<Rightarrow> length b)
     + succeeded_total client endpoint (Suc k) bs"

text \<open>
  The text a file yields, what splitting it gives, and the chunks the file adds to the run.
\<close>

definition content_of :: "env \<Rightarrow> drive_file \<Rightarrow> js_val" where
  "content_of w file = fst (getFileContent (drive w) (pdf w) file)"

definition split_of :: "env \<Rightarrow> drive_file \<Rightarrow> error + document list" where
  "split_of w file = fst (splitText (createDocuments w) (content_of w file) file)"


text \<open>
  The three objects \<open>runIngestion\<close> returns, by the numbers of files processed, chunks
  generated and chunks embedded.
\<close>

definition result_of :: "nat \<Rightarrow> nat \<Rightarrow> nat \<Rightarrow> (string \<times> js_val) list" where
  "result_of filesProcessed generated embedded =
     (if generated = 0 then
        [(''filesProcessed'', JNum (int filesProcessed)),
         (''chunksGenerated'', JNum 0),
         (''status'', JStr ''No chunks generated'')]
      else if embedded = 0 then
        [(''filesProcessed'', JNum (int filesProcessed)),
         (''chunksGenerated'', JNum (int generated)),
         (''chunksEmbedded'', JNum 0),
         (''status'', JStr ''No chunks embedded'')]
      else
        [(''filesProcessed'', JNum (int filesProcessed)),
         (''chunksGenerated'', JNum (int generated)),
         (''chunksEmbedded'', JNum (int embedded))])"

text \<open>The \<open>status\<close> of a response body, and the three values the specification names.\<close>

definition response_status :: "http_response \<Rightarrow> js_val" where
  "response_status resp =
     (case body resp of JObj kvs \<Rightarrow> get_prop kvs ''status'' | _ \<Rightarrow> JUndefined)"

definition spec_statuses :: "js_val list" where
  "spec_statuses = [JStr ''completed'', JStr ''completed_with_errors'', JStr ''failed'']"

section \<open>Concrete runs\<close>

definition file_a :: drive_file where
  "file_a = \<lparr>file_id = ''a'', file_name = ''a.txt'', mimeType = ''text/plain''\<rparr>"

definition file_b :: drive_file where
  "file_b = \<lparr>file_id = ''b'', file_name = ''b.txt'', mimeType = ''text/plain''\<rparr>"

definition cfg0 :: config where
  "cfg0 =
     \<lparr>driveServiceAccountCredentials = JObj [],
      googleDriveFolderId = ''folder'',
      vertexAiIndexId = ''index'',
      vertexAiIndexEndpointId = ''endpoint'',
      gcpProjectId = ''project'',
      gcpRegion = ''region'',
      vertexAiEmbeddingModelName = ''model''\<rparr>"

text \<open>A folder of two text files: the download of \<open>a\<close> succeeds, the download of \<open>b\<close> fails.\<close>

definition drive0 :: drive_api where
  "drive0 =
     \<lparr>files_list = (\<lambda>q t. Inr \<lparr>resp_files = Some [file_a, file_b], nextPageToken = None\<rparr>),
      files_export = (\<lambda>fid mt. Inl (Error ''not exportable'')),
      files_get = (\<lambda>fid rt. if fid = ''a'' then Inr (JStr ''hello'')
                              else Inl (Error ''download failed''))\<rparr>"

definition env0 :: env where
  "env0 =
     \<lparr>getConfig = Inr cfg0,
      drive_auth_error = None,
      vertex_init_error = None,
      drive = drive0,
      pdf = (\<lambda>d. Inl (Error ''no pdf'')),
      createDocuments = (\<lambda>t. Promise (Inr [t])),
      embedDocuments = (\<lambda>k texts. Inr (map (\<lambda>t. [1, 0]) texts)),
      indexEndpointPath = (\<lambda>p r i. p @ ''/'' @ r @ ''/'' @ i),
      upsertDatapoints = (\<lambda>k request. Inr ())\<rparr>"

definition doc_hello :: document where
  "doc_hello =
     \<lparr>pageContent = ''hello'',
      metadata = \<lparr>md_source = ''a'', md_name = ''a.txt'', md_id = ''a_chunk_0''\<rparr>\<rparr>"


definition env_empty_folder :: env where
  "env_empty_folder =
     env0\<lparr>drive := drive0\<lparr>files_list :=
       (\<lambda>q t. Inr \<lparr>resp_files = Some [], nextPageToken = None\<rparr>)\<rparr>\<rparr>"

definition env_failed_download :: env where
  "env_failed_download =
     env0\<lparr>drive := drive0\<lparr>files_list :=
       (\<lambda>q t. Inr \<lparr>resp_files = Some [file_b], nextPageToken = None\<rparr>)\<rparr>\<rparr>"

text \<open>An embedding client whose first call times out, and an index client whose first call
  is throttled; every later call succeeds.\<close>

definition fail_first :: "nat \<Rightarrow> string list \<Rightarrow> error + real list list" where
  "fail_first k texts = (if k = 0 then Inl (Error ''timeout'') else Inr (map (\<lambda>t. [1, 0]) texts))"

definition throttled_once :: "nat \<Rightarrow> upsert_request \<Rightarrow> error + unit" where
  "throttled_once k request = (if k = 0 then Inl (Error ''throttled'') else Inr ())"

definition ec_hello :: embedded_chunk where
  "ec_hello =
     \<lparr>ec_id = ''a_chunk_0'', embedding = [1, 0],
      ec_metadata = \<lparr>md_source = ''a'', md_name = ''a.txt'', md_id = ''a_chunk_0''\<rparr>,
      ec_pageContent = ''hello''\<rparr>"

definition req_hello :: upsert_request where
  "req_hello =
     \<lparr>indexEndpoint = ''project/region/endpoint'',
      datapoints = [\<lparr>datapointId = ''a_chunk_0'', featureVector = [1, 0]\<rparr>]\<rparr>"

text \<open>The same folder when the download of \<open>a\<close> returns the empty string.\<close>

definition env_empty_text :: env where
  "env_empty_text =
     env0\<lparr>drive := drive0\<lparr>files_get := (\<lambda>fid rt. if fid = ''a'' then Inr (JStr [])
                                                   else Inl (Error ''download failed''))\<rparr>\<rparr>"

section \<open>Lemmas\<close>

subsection \<open>Batches\<close>

lemma batches_of_Nil [simp]: "batches_of n [] = []"
  by (simp add: batches_of.simps)

lemma batches_of_step:
  "0 < n \<Longrightarrow> xs \<noteq> [] \<Longrightarrow> batches_of n xs = take n xs # batches_of n (drop n xs)"
  by (subst batches_of.simps) simp

lemma concat_batches_of: "0 < n \<Longrightarrow> concat (batches_of n xs) = xs"
proof (induction n xs rule: batches_of.induct)
  case (1 n xs)
  show ?case
  proof (cases "xs = []")
    case True
    then show ?thesis by simp
  next
    case False
    with 1 show ?thesis by (simp add: batches_of_step)
  qed
qed

lemma length_batches_of: "0 < n \<Longrightarrow> length (batches_of n xs) = (length xs + n - 1) div n"
proof (induction n xs rule: batches_of.induct)
  case (1 n xs)
  show ?case
  proof (cases "xs = []")
    case True
    with 1(2) show ?thesis by simp
  next
    case False
    then have pos: "0 < length xs" by simp
    have ih: "length (batches_of n (drop n xs)) = (length (drop n xs) + n - 1) div n"
      using 1 False by simp
    show ?thesis
    proof (cases "length xs \<le> n")
      case True
      moreover obtain m where m: "length xs = Suc m"
        using pos by (cases "length xs") auto
      ultimately have "(length xs + n - 1) div n = 1"
        using 1(2) by (intro div_nat_eqI) auto
      with True ih False 1(2) show ?thesis by (simp add: batches_of_step)
    next
      case False': False
      then have "length xs + n - 1 = (length xs - n + n - 1) + n" by simp
      then have "(length xs + n - 1) div n = Suc ((length xs - n + n - 1) div n)"
        using 1(2) by (metis div_add_self2 less_numeral_extra(3) Suc_eq_plus1)
      with ih False 1(2) show ?thesis by (simp add: batches_of_step)
    qed
  qed
qed

lemma batches_of_bounded: "b \<in> set (batches_of n xs) \<Longrightarrow> length b \<le> n \<and> b \<noteq> []"
proof (induction n xs rule: batches_of.induct)
  case (1 n xs)
  show ?case
  proof (cases "n = 0 \<or> xs = []")
    case True
    with 1(2) show ?thesis by (simp add: batches_of.simps)
  next
    case False
    with 1 show ?thesis by (auto simp: batches_of_step)
  qed
qed

lemma ceil_div:
  assumes "0 < n"
  shows "nat \<lceil>real m / real n\<rceil> = (m + n - 1) div n"
proof -
  define q where "q = (m + n - 1) div n"
  define r where "r = (m + n - 1) mod n"
  have r: "r < n" using assms by (simp add: r_def)
  have split: "q * n + r = m + n - 1" by (simp add: q_def r_def)
  have up: "m \<le> q * n" using r split assms by linarith
  have low: "q * n < m + n" using r split assms by linarith
  have "\<lceil>real m / real n\<rceil> = int q"
  proof (rule ceiling_unique)
    have "real (q * n) < real (m + n)" using low by (simp only: of_nat_less_iff)
    then have "(real q - 1) * real n < real m" by (simp add: algebra_simps)
    then show "of_int (int q) - 1 < real m / real n"
      using assms by (simp add: pos_less_divide_eq)
    have "real m \<le> real (q * n)" using up by (simp only: of_nat_le_iff)
    then show "real m / real n \<le> of_int (int q)"
      using assms by (simp add: pos_divide_le_eq)
  qed
  then show ?thesis by (simp add: q_def)
qed

lemma slice_take_drop: "slice xs i (i + n) = take n (drop i xs)"
  by (simp add: slice_def)

subsection \<open>The embedding loop\<close>

lemma indexed_zip:
  "length vs = length batch \<Longrightarrow>
     map (\<lambda>(chunk, index). f chunk (vs ! index)) (zip batch [0..<length batch])
       = map (\<lambda>(chunk, v). f chunk v) (zip batch vs)"
  by (rule nth_equalityI) auto

lemma embed_batch_output:
  "(case embed_batch client k batch of Inl e \<Rightarrow> [] | Inr pushed \<Rightarrow> pushed)
     = batch_output client k batch"
proof (cases "client k (map pageContent batch)")
  case (Inl e)
  then show ?thesis by (simp add: embed_batch_def batch_output_def)
next
  case (Inr vs)
  show ?thesis
  proof (cases "length vs = length batch")
    case True
    from indexed_zip [OF True, of "\<lambda>chunk v. \<lparr>ec_id = md_id (metadata chunk), embedding = v,
       ec_metadata = metadata chunk, ec_pageContent = pageContent chunk\<rparr>"]
    show ?thesis using Inr True by (simp add: embed_batch_def batch_output_def)
  next
    case False
    then show ?thesis using Inr by (simp add: embed_batch_def batch_output_def)
  qed
qed

lemma embedChunks_loop_eq:
  "embedChunks_loop client chunks i acc sent =
     (acc @ batch_outputs client (length sent) (batches_of EMBEDDING_BATCH_SIZE (drop i chunks)),
      sent @ map (map pageContent) (batches_of EMBEDDING_BATCH_SIZE (drop i chunks)))"
proof (induction client chunks i acc sent rule: embedChunks_loop.induct)
  case (1 client chunks i embeddedChunks sent)
  let ?B = EMBEDDING_BATCH_SIZE
  have B: "0 < ?B" by (simp add: EMBEDDING_BATCH_SIZE_def)
  show ?case
  proof (cases "i < length chunks")
    case False
    then show ?thesis by (subst embedChunks_loop.simps) simp
  next
    case True
    let ?batch = "take ?B (drop i chunks)"
    have ne: "drop i chunks \<noteq> []" using True by simp
    have step: "batches_of ?B (drop i chunks) = ?batch # batches_of ?B (drop (i + ?B) chunks)"
      using batches_of_step [OF B ne] by (simp add: add.commute)
    have out: "batch_output client (length sent) ?batch =
          (case embed_batch client (length sent) ?batch of Inl e \<Rightarrow> [] | Inr pushed \<Rightarrow> pushed)"
      by (simp add: embed_batch_output)
    show ?thesis
    proof (cases "embed_batch client (length sent) ?batch")
      case (Inl e)
      from "1.IH"(1) [OF True refl refl Inl [unfolded slice_take_drop [symmetric]]]
      show ?thesis
        using True Inl out step
        by (subst embedChunks_loop.simps) (simp add: slice_take_drop Let_def)
    next
      case (Inr pushed)
      from "1.IH"(2) [OF True refl refl Inr [unfolded slice_take_drop [symmetric]]]
      show ?thesis
        using True Inr out step
        by (subst embedChunks_loop.simps) (simp add: slice_take_drop Let_def)
    qed
  qed
qed

lemma embedChunks_eq:
  "embedChunks chunks client =
     (batch_outputs client 0 (batches_of EMBEDDING_BATCH_SIZE chunks),
      map (map pageContent) (batches_of EMBEDDING_BATCH_SIZE chunks))"
  unfolding embedChunks_def embedChunks_loop_eq by simp

lemma map_fst_zip_fun:
  "length vs = length batch \<Longrightarrow> map (\<lambda>x. f (fst x)) (zip batch vs) = map f batch"
  by (rule nth_equalityI) auto

lemma carried_batch_output:
  "batch_output client k batch = [] \<or>
     map carried (batch_output client k batch) = map source_of batch"
proof (cases "client k (map pageContent batch)")
  case (Inl e)
  then show ?thesis by (simp add: batch_output_def)
next
  case (Inr vs)
  show ?thesis
  proof (cases "length vs = length batch")
    case True
    have "map (\<lambda>x. source_of (fst x)) (zip batch vs) = map source_of batch"
      using True by (rule map_fst_zip_fun)
    then show ?thesis using Inr True
      by (simp add: batch_output_def case_prod_unfold comp_def carried_def source_of_def)
  next
    case False
    then show ?thesis using Inr by (simp add: batch_output_def)
  qed
qed

lemma subseq_batch_outputs:
  "subseq (map carried (batch_outputs client k bs)) (map source_of (concat bs))"
proof (induction bs arbitrary: k)
  case Nil
  then show ?case by simp
next
  case (Cons b bs)
  have "subseq (map carried (batch_output client k b)) (map source_of b)"
    using carried_batch_output [of client k b] by auto
  with Cons [of "Suc k"] show ?case
    by (simp add: list_emb_append_mono)
qed

subsection \<open>The upsert loop\<close>

lemma upsertVectors_loop_eq:
  "upsertVectors_loop client endpoint ecs i n sent =
     (n + succeeded_total client endpoint (length sent)
            (batches_of UPSERT_BATCH_SIZE (drop i ecs)),
      sent @ map (request_of endpoint) (batches_of UPSERT_BATCH_SIZE (drop i ecs)))"
proof (induction client endpoint ecs i n sent rule: upsertVectors_loop.induct)
  case (1 client endpoint ecs i n sent)
  let ?B = UPSERT_BATCH_SIZE
  have B: "0 < ?B" by (simp add: UPSERT_BATCH_SIZE_def)
  show ?case
  proof (cases "i < length ecs")
    case False
    then show ?thesis by (subst upsertVectors_loop.simps) simp
  next
    case True
    let ?batch = "take ?B (drop i ecs)"
    let ?req = "\<lparr>indexEndpoint = endpoint, datapoints = map to_datapoint ?batch\<rparr>"
    have ne: "drop i ecs \<noteq> []" using True by simp
    have step: "batches_of ?B (drop i ecs) = ?batch # batches_of ?B (drop (i + ?B) ecs)"
      using batches_of_step [OF B ne] by (simp add: add.commute)
    show ?thesis
    proof (cases "client (length sent) ?req")
      case (Inl e)
      from "1.IH"(1) [OF True refl refl Inl [unfolded slice_take_drop [symmetric]]]
      show ?thesis
        using True Inl step
        by (subst upsertVectors_loop.simps) (simp add: slice_take_drop Let_def request_of_def)
    next
      case (Inr u)
      from "1.IH"(2) [OF True refl refl Inr [unfolded slice_take_drop [symmetric]]]
      show ?thesis
        using True Inr step
        by (subst upsertVectors_loop.simps) (simp add: slice_take_drop Let_def request_of_def)
    qed
  qed
qed

lemma upsertVectors_eq:
  "upsertVectors ecs cfg path client =
     (succeeded_total client (path (gcpProjectId cfg) (gcpRegion cfg) (vertexAiIndexEndpointId cfg))
        0 (batches_of UPSERT_BATCH_SIZE ecs),
      map (request_of (path (gcpProjectId cfg) (gcpRegion cfg) (vertexAiIndexEndpointId cfg)))
        (batches_of UPSERT_BATCH_SIZE ecs))"
  unfolding upsertVectors_def upsertVectors_loop_eq by simp

subsection \<open>The loop over the files and the run\<close>

lemma subseq_embedChunks:
  "subseq (map carried (fst (embedChunks chunks client))) (map source_of chunks)"
  using subseq_batch_outputs [of client 0 "batches_of EMBEDDING_BATCH_SIZE chunks"]
  by (simp add: embedChunks_eq concat_batches_of EMBEDDING_BATCH_SIZE_def)

lemma length_embedChunks_le: "length (fst (embedChunks chunks client)) \<le> length chunks"
  using list_emb_length [OF subseq_embedChunks [of chunks client]] by simp

lemma fst_prepend_calls [simp]: "fst (prepend_calls cs r) = fst r"
  by (simp add: prepend_calls_def)

lemma snd_prepend_calls [simp]: "snd (prepend_calls cs r) = cs @ snd r"
  by (simp add: prepend_calls_def)

lemma splitText_guard:
  "\<not> truthy text \<or> typeof text \<noteq> ''string'' \<Longrightarrow> splitText splitter text file = (Inr [], [])"
  by (simp add: splitText_def)

lemma process_files_skip:
  "\<not> truthy (content_of w file) \<Longrightarrow>
     process_files w (file # rest) acc n
       = prepend_calls (snd (getFileContent (drive w) (pdf w) file)) (process_files w rest acc n)"
  by (simp add: content_of_def Let_def)

lemma process_files_step:
  "fst (process_files w (file # rest) acc n) =
     (case split_of w file of
        Inl e \<Rightarrow> Inl e
      | Inr cs \<Rightarrow> fst (process_files w rest (acc @ cs) (if cs = [] then n else n + 1)))"
proof (cases "truthy (content_of w file)")
  case False
  then have "split_of w file = Inr []"
    by (simp add: split_of_def splitText_guard)
  with False show ?thesis
    by (simp add: process_files_skip del: process_files.simps)
next
  case True
  then show ?thesis
    by (cases "split_of w file") (auto simp: content_of_def split_of_def Let_def)
qed






lemma after_listing_Inl:
  "fst (process_files w files [] 0) = Inl e \<Longrightarrow> fst (after_listing w cfg files) = Inl e"
  by (cases "process_files w files [] 0") (simp add: after_listing_def)

lemma after_listing_Inr:
  "fst (process_files w files [] 0) = Inr (cs, n) \<Longrightarrow>
     fst (after_listing w cfg files)
       = Inr (result_of n (length cs) (length (fst (embedChunks cs (embedDocuments w)))))"
  by (cases "process_files w files [] 0")
     (auto simp: after_listing_def result_of_def split: prod.splits)

lemma after_listing_cases:
  "(\<exists>e. fst (after_listing w cfg files) = Inl e \<and> fst (process_files w files [] 0) = Inl e)
   \<or> (\<exists>n g m. fst (after_listing w cfg files) = Inr (result_of n g m) \<and> m \<le> g)"
proof (cases "fst (process_files w files [] 0)")
  case (Inl e)
  then show ?thesis by (simp add: after_listing_Inl)
next
  case (Inr p)
  obtain cs n where p: "p = (cs, n)" by (cases p)
  have "length (fst (embedChunks cs (embedDocuments w))) \<le> length cs"
    by (rule length_embedChunks_le)
  with Inr p show ?thesis
    using after_listing_Inr [of w files cs n cfg] by auto
qed

lemma get_prop_result_of:
  "get_prop (result_of n g m) ''filesProcessed'' = JNum (int n)"
  "get_prop (result_of n g m) ''chunksGenerated'' = JNum (int g)"
  "js_or (get_prop (result_of n g m) ''chunksEmbedded'') (JNum 0)
     = JNum (if g = 0 then 0 else int m)"
  "get_prop (result_of n g m) ''errors'' = JUndefined"
  "get_prop (result_of n g m) ''recordsUpserted'' = JUndefined"
  "get_prop (result_of n g m) ''documentsProcessed'' = JUndefined"
  by (simp_all add: result_of_def get_prop_def js_or_def)

lemma runIngestion_cases:
  "runIngestion w = Some (outcome, calls) \<Longrightarrow>
     (\<exists>e. outcome = Inl e) \<or> (\<exists>n g m. outcome = Inr (result_of n g m) \<and> m \<le> g)"
proof (cases "initialise w")
  case (Inl e)
  assume "runIngestion w = Some (outcome, calls)"
  with Inl show ?thesis by (auto simp: runIngestion_def)
next
  case (Inr cfg)
  assume run: "runIngestion w = Some (outcome, calls)"
  show ?thesis
  proof (cases "listDriveFiles (drive w) (googleDriveFolderId cfg)")
    case None
    with run Inr show ?thesis by (simp add: runIngestion_def processing_steps_def)
  next
    case (Some listed)
    obtain r calls0 where listed: "listed = (r, calls0)" by (cases listed)
    show ?thesis
    proof (cases r)
      case (Inl e)
      with run Inr Some listed show ?thesis
        by (auto simp: runIngestion_def processing_steps_def)
    next
      case (Inr files)
      with run \<open>initialise w = Inr cfg\<close> Some listed
      have "outcome = fst (after_listing w cfg files)"
        by (auto simp: runIngestion_def processing_steps_def prepend_calls_def)
      with after_listing_cases [of w cfg files] show ?thesis by auto
    qed
  qed
qed

lemma batch_outputs_concat:
  "batch_outputs client k bs
     = concat (map (\<lambda>j. batch_output client (k + j) (bs ! j)) [0..<length bs])"
proof (induction bs arbitrary: k)
  case Nil
  then show ?case by simp
next
  case (Cons b bs)
  have "map (\<lambda>j. batch_output client (k + j) ((b # bs) ! j)) [0..<length (b # bs)]
        = batch_output client k b
          # map (\<lambda>j. batch_output client (Suc k + j) (bs ! j)) [0..<length bs]"
    by (simp add: upt_conv_Cons map_Suc_upt [symmetric] del: upt_Suc)
  with Cons [of "Suc k"] show ?case by simp
qed

lemma embed_batch_fails:
  "embed_batch client k batch =
     (case client k (map pageContent batch) of
        Inl e \<Rightarrow> Inl e
      | Inr vs \<Rightarrow>
          if length vs \<noteq> length batch
          then Inl (Error ''Mismatch between number of texts and embeddings returned.'')
          else Inr (batch_output client k batch))"
proof (cases "client k (map pageContent batch)")
  case (Inl e)
  then show ?thesis by (simp add: embed_batch_def)
next
  case (Inr vs)
  show ?thesis
  proof (cases "length vs = length batch")
    case True
    with Inr embed_batch_output [of client k batch] show ?thesis
      by (simp add: embed_batch_def)
  next
    case False
    with Inr show ?thesis by (simp add: embed_batch_def)
  qed
qed

lemma batch_output_aligned:
  fixes batch :: "document list"
  assumes "client k (map pageContent batch) = Inr vs" and "length vs = length batch"
    and "j < length batch"
  shows "length (batch_output client k batch) = length batch"
    and "embedding (batch_output client k batch ! j) = vs ! j"
    and "carried (batch_output client k batch ! j) = source_of (batch ! j)"
  using assms by (simp_all add: batch_output_def carried_def source_of_def)

lemma subseq_ids_embedChunks:
  "subseq (map ec_id (fst (embedChunks chunks client))) (map (\<lambda>c. md_id (metadata c)) chunks)"
proof -
  have "subseq (map fst (map carried (fst (embedChunks chunks client))))
               (map fst (map source_of chunks))"
    by (rule subseq_map) (rule subseq_embedChunks)
  then show ?thesis
    by (simp add: comp_def carried_def source_of_def)
qed

lemma process_files_upsert_irrelevant:
  "process_files (w\<lparr>upsertDatapoints := client\<rparr>) files acc n = process_files w files acc n"
  by (induction files arbitrary: acc n) (simp_all add: Let_def split: sum.splits)

lemma after_listing_upsert_irrelevant:
  "fst (after_listing (w\<lparr>upsertDatapoints := client\<rparr>) cfg files) = fst (after_listing w cfg files)"
  by (simp add: after_listing_def process_files_upsert_irrelevant split: prod.splits sum.splits)





lemma split_of_guard:
  "\<not> truthy (content_of w f) \<or> typeof (content_of w f) \<noteq> ''string'' \<Longrightarrow> split_of w f = Inr []"
  by (simp add: split_of_def splitText_guard)

lemma splitText_raises:
  "truthy text \<Longrightarrow> typeof text = ''string'' \<Longrightarrow>
     splitText splitter text f
       = (Inl (Error ''documents.forEach is not a function''), [SplitCall (the_string text)])"
  by (cases "splitter (the_string text)") (simp add: splitText_def)

lemma splitText_Inr_Nil: "fst (splitText splitter text f) = Inr chunks \<Longrightarrow> chunks = []"
  by (cases "splitter (the_string text)") (auto simp: splitText_def split: if_splits)


lemma split_of_raises:
  "truthy (content_of w f) \<Longrightarrow> typeof (content_of w f) = ''string'' \<Longrightarrow>
     split_of w f = Inl (Error ''documents.forEach is not a function'')"
  by (simp add: split_of_def splitText_raises)

lemma process_files_raises:
  "\<exists>f \<in> set files. truthy (content_of w f) \<and> typeof (content_of w f) = ''string'' \<Longrightarrow>
     fst (process_files w files acc n) = Inl (Error ''documents.forEach is not a function'')"
proof (induction files arbitrary: acc n)
  case Nil
  then show ?case by simp
next
  case (Cons f rest)
  show ?case
  proof (cases "truthy (content_of w f) \<and> typeof (content_of w f) = ''string''")
    case True
    then have "split_of w f = Inl (Error ''documents.forEach is not a function'')"
      by (simp add: split_of_raises)
    then show ?thesis
      by (simp add: process_files_step del: process_files.simps)
  next
    case False
    then have s: "split_of w f = Inr []"
      by (auto simp: split_of_guard)
    from False Cons.prems
    have "\<exists>g \<in> set rest. truthy (content_of w g) \<and> typeof (content_of w g) = ''string''"
      by auto
    from Cons.IH [OF this] s show ?thesis
      by (simp add: process_files_step del: process_files.simps)
  qed
qed

lemma run_failed_download:
  "map_option fst (runIngestion env_failed_download) = Some (Inr (result_of 0 0 0))"
  by code_simp

lemma runIngestion_listed:
  "initialise w = Inr cfg \<Longrightarrow>
   listDriveFiles (drive w) (googleDriveFolderId cfg) = Some (Inr files, calls0) \<Longrightarrow>
     runIngestion w = Some (prepend_calls calls0 (after_listing w cfg files))"
  by (simp add: runIngestion_def processing_steps_def)





lemma respond_Inl:
  "respond (Inl e)
     = \<lparr>status_code = 500,
        body = JObj [(''status'', JStr ''error''),
                     (''message'', JStr (''Ingestion failed: '' @ message e))]\<rparr>"
  by (simp add: respond_def)

lemma respond_Inr:
  "respond (Inr result)
     = \<lparr>status_code = 200,
        body = JObj [(''status'', JStr ''success''),
                     (''message'', JStr (summary_message result)),
                     (''result'', JObj result)]\<rparr>"
  by (simp add: respond_def)

lemma runbookIngestionHttp_eq:
  "runIngestion w = Some (outcome, calls) \<Longrightarrow>
     runbookIngestionHttp w = Some (respond outcome, calls)"
  by (simp add: runbookIngestionHttp_def)

lemma result_of_chunksEmbedded:
  "0 < g \<Longrightarrow> get_prop (result_of n g m) ''chunksEmbedded'' = JNum (int m)"
  by (simp add: result_of_def get_prop_def)

lemma listed_env0:
  "map_option fst (listDriveFiles (drive env0) (googleDriveFolderId cfg0))
     = Some (Inr [file_a, file_b])"
  by code_simp

section \<open>Claims\<close>

text \<open>
  C2. The embedder cuts a list of \<open>N\<close> chunks into consecutive batches of at most
  \<open>EMBEDDING_BATCH_SIZE = 200\<close> chunks and sends exactly one request per batch, in order:
  the requests are the texts of the batches, there are \<open>ceil(N / 200)\<close> of them, none
  holds more than 200 texts, and put end to end the batches are the input list.
\<close>

theorem embedChunks_batching:
  "snd (embedChunks chunks client)
     = map (map pageContent) (batches_of EMBEDDING_BATCH_SIZE chunks)
   \<and> concat (batches_of EMBEDDING_BATCH_SIZE chunks) = chunks
   \<and> EMBEDDING_BATCH_SIZE = 200
   \<and> length (snd (embedChunks chunks client))
       = nat \<lceil>real (length chunks) / real EMBEDDING_BATCH_SIZE\<rceil>
   \<and> (\<forall>texts \<in> set (snd (embedChunks chunks client)). length texts \<le> EMBEDDING_BATCH_SIZE)
   \<and> concat (snd (embedChunks chunks client)) = map pageContent chunks"
proof -
  let ?B = EMBEDDING_BATCH_SIZE
  have B: "0 < ?B" by (simp add: EMBEDDING_BATCH_SIZE_def)
  have sent: "snd (embedChunks chunks client) = map (map pageContent) (batches_of ?B chunks)"
    by (simp add: embedChunks_eq)
  have cat: "concat (batches_of ?B chunks) = chunks"
    using B by (rule concat_batches_of)
  have len: "length (snd (embedChunks chunks client)) = nat \<lceil>real (length chunks) / real ?B\<rceil>"
    using B by (simp add: sent length_batches_of ceil_div)
  have bound: "\<forall>texts \<in> set (snd (embedChunks chunks client)). length texts \<le> ?B"
    using batches_of_bounded [of _ ?B chunks] by (auto simp: sent)
  have "concat (snd (embedChunks chunks client)) = map pageContent (concat (batches_of ?B chunks))"
    by (simp add: sent map_concat)
  with cat have all: "concat (snd (embedChunks chunks client)) = map pageContent chunks"
    by simp
  from sent cat len bound all show ?thesis
    by (simp add: EMBEDDING_BATCH_SIZE_def)
qed

theorem embedChunks_batching_witness:
  "length (snd (embedChunks (replicate 201 doc_hello) (embedDocuments env0))) = 2
   \<and> list_all (\<lambda>texts. length texts \<le> 200)
         (snd (embedChunks (replicate 201 doc_hello) (embedDocuments env0)))"
proof -
  note w = embedChunks_batching [of "replicate 201 doc_hello" "embedDocuments env0"]
  from w have len: "length (snd (embedChunks (replicate 201 doc_hello) (embedDocuments env0)))
      = nat \<lceil>real (length (replicate 201 doc_hello)) / real EMBEDDING_BATCH_SIZE\<rceil>"
    by blast
  from w have bound: "\<forall>texts \<in> set (snd (embedChunks (replicate 201 doc_hello) (embedDocuments env0))).
      length texts \<le> EMBEDDING_BATCH_SIZE"
    by blast
  have "nat \<lceil>real (length (replicate 201 doc_hello)) / real EMBEDDING_BATCH_SIZE\<rceil> = 2"
    by (simp add: EMBEDDING_BATCH_SIZE_def)
  with len bound show ?thesis
    by (simp add: EMBEDDING_BATCH_SIZE_def list_all_iff)
qed

text \<open>
  C4. A batch whose embedding call raises, or answers with a number of vectors other than
  the number of texts sent (the code raises the mismatch error itself), adds nothing to the
  embedded output. The failure does not leave the embedding stage: every batch is sent,
  whatever happened to the batches before it, and a run whose files were processed returns
  its result object. A batch whose call succeeds adds one record per chunk, in order, the
  record of the chunk at position \<open>j\<close> holding the vector at position \<open>j\<close> of the answer.
\<close>

theorem embed_failures_isolated:
  "snd (embedChunks chunks client)
     = map (map pageContent) (batches_of EMBEDDING_BATCH_SIZE chunks)
   \<and> fst (embedChunks chunks client)
     = concat (map (\<lambda>k. batch_output client k (batches_of EMBEDDING_BATCH_SIZE chunks ! k))
                [0..<length (batches_of EMBEDDING_BATCH_SIZE chunks)])
   \<and> (\<forall>k (batch :: document list) e. client k (map pageContent batch) = Inl e \<longrightarrow>
          embed_batch client k batch = Inl e \<and> batch_output client k batch = [])
   \<and> (\<forall>k (batch :: document list) vs. client k (map pageContent batch) = Inr vs \<and> length vs \<noteq> length batch \<longrightarrow>
          embed_batch client k batch
            = Inl (Error ''Mismatch between number of texts and embeddings returned.'')
          \<and> batch_output client k batch = [])
   \<and> (\<forall>k (batch :: document list) vs j.
          client k (map pageContent batch) = Inr vs \<and> length vs = length batch
            \<and> j < length batch \<longrightarrow>
          embed_batch client k batch = Inr (batch_output client k batch)
          \<and> length (batch_output client k batch) = length batch
          \<and> embedding (batch_output client k batch ! j) = vs ! j
          \<and> carried (batch_output client k batch ! j) = source_of (batch ! j))
   \<and> (\<forall>w cfg files cs n. fst (process_files w files [] 0) = Inr (cs, n) \<longrightarrow>
          (\<exists>result. fst (after_listing w cfg files) = Inr result))"
proof (intro conjI allI impI)
  show "snd (embedChunks chunks client)
     = map (map pageContent) (batches_of EMBEDDING_BATCH_SIZE chunks)"
    by (simp add: embedChunks_eq)
  show "fst (embedChunks chunks client)
     = concat (map (\<lambda>k. batch_output client k (batches_of EMBEDDING_BATCH_SIZE chunks ! k))
                [0..<length (batches_of EMBEDDING_BATCH_SIZE chunks)])"
    by (simp add: embedChunks_eq batch_outputs_concat)
next
  fix k and batch :: "document list" and e
  assume "client k (map pageContent batch) = Inl e"
  then show "embed_batch client k batch = Inl e" "batch_output client k batch = []"
    by (simp_all add: embed_batch_fails batch_output_def)
next
  fix k and batch :: "document list" and vs
  assume "client k (map pageContent batch) = Inr vs \<and> length vs \<noteq> length batch"
  then show "embed_batch client k batch
            = Inl (Error ''Mismatch between number of texts and embeddings returned.'')"
    "batch_output client k batch = []"
    by (simp_all add: embed_batch_fails batch_output_def)
next
  fix k and batch :: "document list" and vs j
  assume a: "client k (map pageContent batch) = Inr vs \<and> length vs = length batch
            \<and> j < length batch"
  then show "embed_batch client k batch = Inr (batch_output client k batch)"
    by (simp add: embed_batch_fails)
  from a show "length (batch_output client k batch) = length batch"
    "embedding (batch_output client k batch ! j) = vs ! j"
    "carried (batch_output client k batch ! j) = source_of (batch ! j)"
    using batch_output_aligned [of client k batch vs j] by simp_all
next
  fix w cfg files cs n
  assume "fst (process_files w files [] 0) = Inr (cs, n)"
  then show "\<exists>result. fst (after_listing w cfg files) = Inr result"
    by (simp add: after_listing_Inr)
qed

theorem embed_failures_isolated_witness:
  "fail_first 0 (map pageContent (replicate 200 doc_hello)) = Inl (Error ''timeout'')
   \<and> length (snd (embedChunks (replicate 201 doc_hello) fail_first)) = 2
   \<and> fst (embedChunks (replicate 201 doc_hello) fail_first) = [ec_hello]"
proof -
  note w = embed_failures_isolated [of "replicate 201 doc_hello" fail_first]
  have b: "batches_of EMBEDDING_BATCH_SIZE (replicate 201 doc_hello)
             = [replicate 200 doc_hello, [doc_hello]]"
    by code_simp
  from w have "snd (embedChunks (replicate 201 doc_hello) fail_first)
     = map (map pageContent) (batches_of EMBEDDING_BATCH_SIZE (replicate 201 doc_hello))"
    by blast
  then have sent: "length (snd (embedChunks (replicate 201 doc_hello) fail_first)) = 2"
    by (simp add: b)
  from w have "fst (embedChunks (replicate 201 doc_hello) fail_first)
     = concat (map (\<lambda>k. batch_output fail_first k
                    (batches_of EMBEDDING_BATCH_SIZE (replicate 201 doc_hello) ! k))
                [0..<length (batches_of EMBEDDING_BATCH_SIZE (replicate 201 doc_hello))])"
    by blast
  also have "\<dots> = [ec_hello]"
    unfolding b by code_simp
  finally have out: "fst (embedChunks (replicate 201 doc_hello) fail_first) = [ec_hello]" .
  have "fail_first 0 (map pageContent (replicate 200 doc_hello)) = Inl (Error ''timeout'')"
    by (simp add: fail_first_def)
  with sent out show ?thesis by simp
qed

text \<open>
  C9. The embedded output is a subsequence of the input chunks, kept or dropped batch by
  batch: every record carries the id, the metadata and the text of its chunk unchanged, the
  records stand in the order of their chunks, and there are at most as many records as
  chunks. In the object a run returns, the number of embedded chunks (taken as 0 when the
  object has no \<open>chunksEmbedded\<close>, as the summary message takes it) is at most the number
  of generated chunks.
\<close>

theorem embedded_subsequence:
  "subseq (map carried (fst (embedChunks chunks client))) (map source_of chunks)
   \<and> subseq (map ec_id (fst (embedChunks chunks client)))
             (map (\<lambda>c. md_id (metadata c)) chunks)
   \<and> length (fst (embedChunks chunks client)) \<le> length chunks
   \<and> fst (embedChunks chunks client)
       = batch_outputs client 0 (batches_of EMBEDDING_BATCH_SIZE chunks)
   \<and> (\<forall>k (b :: document list).
         batch_output client k b = []
         \<or> map carried (batch_output client k b) = map source_of b)
   \<and> (\<forall>w out calls. runIngestion w = Some (Inr out, calls) \<longrightarrow>
         (\<exists>g e. get_prop out ''chunksGenerated'' = JNum (int g)
                \<and> js_or (get_prop out ''chunksEmbedded'') (JNum 0) = JNum (int e)
                \<and> e \<le> g))"
proof (intro conjI allI impI)
  show "subseq (map carried (fst (embedChunks chunks client))) (map source_of chunks)"
    by (rule subseq_embedChunks)
  show "subseq (map ec_id (fst (embedChunks chunks client)))
             (map (\<lambda>c. md_id (metadata c)) chunks)"
    by (rule subseq_ids_embedChunks)
  show "length (fst (embedChunks chunks client)) \<le> length chunks"
    by (rule length_embedChunks_le)
  show "fst (embedChunks chunks client)
       = batch_outputs client 0 (batches_of EMBEDDING_BATCH_SIZE chunks)"
    by (simp add: embedChunks_eq)
next
  fix k and b :: "document list"
  show "batch_output client k b = []
         \<or> map carried (batch_output client k b) = map source_of b"
    by (rule carried_batch_output)
next
  fix w out calls
  assume "runIngestion w = Some (Inr out, calls)"
  from runIngestion_cases [OF this]
  obtain n g m where out: "out = result_of n g m" and le: "m \<le> g" by auto
  show "\<exists>g e. get_prop out ''chunksGenerated'' = JNum (int g)
                \<and> js_or (get_prop out ''chunksEmbedded'') (JNum 0) = JNum (int e)
                \<and> e \<le> g"
  proof (cases "g = 0")
    case True
    then show ?thesis
      unfolding out by (intro exI [of _ g] exI [of _ 0]) (simp add: get_prop_result_of)
  next
    case False
    then show ?thesis
      unfolding out using le by (intro exI [of _ g] exI [of _ m]) (simp add: get_prop_result_of)
  qed
qed

theorem embedded_subsequence_witness:
  "\<exists>g e. get_prop (result_of 0 0 0) ''chunksGenerated'' = JNum (int g)
         \<and> js_or (get_prop (result_of 0 0 0) ''chunksEmbedded'') (JNum 0) = JNum (int e)
         \<and> e \<le> g"
proof -
  obtain calls where "runIngestion env_failed_download = Some (Inr (result_of 0 0 0), calls)"
    using run_failed_download by (cases "runIngestion env_failed_download") auto
  with embedded_subsequence [of "[]" fail_first] show ?thesis by blast
qed

text \<open>
  C5 (amended). The index writer sends each upsert batch exactly once, in order: a batch
  whose call fails is logged and skipped, never sent again. In all cases the writer goes on
  to the remaining batches, the outcome of the run does not depend on what the index client
  answers, and the count of upserts is the total size of the batches whose one call
  succeeded.
\<close>

theorem upsert_once_per_batch:
  "snd (upsertVectors ecs cfg path client)
     = map (request_of (path (gcpProjectId cfg) (gcpRegion cfg) (vertexAiIndexEndpointId cfg)))
         (batches_of UPSERT_BATCH_SIZE ecs)
   \<and> fst (upsertVectors ecs cfg path client)
     = succeeded_total client
         (path (gcpProjectId cfg) (gcpRegion cfg) (vertexAiIndexEndpointId cfg))
         0 (batches_of UPSERT_BATCH_SIZE ecs)
   \<and> UPSERT_BATCH_SIZE = 100
   \<and> concat (batches_of UPSERT_BATCH_SIZE ecs) = ecs
   \<and> fst (after_listing (w\<lparr>upsertDatapoints := client\<rparr>) cfg files)
     = fst (after_listing w cfg files)"
  by (simp add: upsertVectors_eq after_listing_upsert_irrelevant concat_batches_of
        UPSERT_BATCH_SIZE_def)

theorem upsert_once_per_batch_witness:
  "snd (upsertVectors (replicate 101 ec_hello) cfg0 (indexEndpointPath env0) throttled_once)
     = [request_of ''project/region/endpoint'' (replicate 100 ec_hello), req_hello]
   \<and> fst (upsertVectors (replicate 101 ec_hello) cfg0 (indexEndpointPath env0) throttled_once) = 1"
proof -
  note w = upsert_once_per_batch
    [of "replicate 101 ec_hello" cfg0 "indexEndpointPath env0" throttled_once env0 "[]"]
  have b: "batches_of UPSERT_BATCH_SIZE (replicate 101 ec_hello)
             = [replicate 100 ec_hello, [ec_hello]]"
    by code_simp
  have p: "indexEndpointPath env0 (gcpProjectId cfg0) (gcpRegion cfg0)
             (vertexAiIndexEndpointId cfg0) = ''project/region/endpoint''"
    by code_simp
  have r: "request_of ''project/region/endpoint'' [ec_hello] = req_hello"
    by code_simp
  have t: "succeeded_total throttled_once ''project/region/endpoint'' 0
             [replicate 100 ec_hello, [ec_hello]] = 1"
    by (simp add: throttled_once_def)
  from w have "snd (upsertVectors (replicate 101 ec_hello) cfg0 (indexEndpointPath env0)
                     throttled_once)
      = map (request_of (indexEndpointPath env0 (gcpProjectId cfg0) (gcpRegion cfg0)
                           (vertexAiIndexEndpointId cfg0)))
          (batches_of UPSERT_BATCH_SIZE (replicate 101 ec_hello))"
    by blast
  then have sent: "snd (upsertVectors (replicate 101 ec_hello) cfg0 (indexEndpointPath env0)
                     throttled_once)
      = [request_of ''project/region/endpoint'' (replicate 100 ec_hello), req_hello]"
    by (simp only: b p r list.map)
  from w have "fst (upsertVectors (replicate 101 ec_hello) cfg0 (indexEndpointPath env0)
                     throttled_once)
      = succeeded_total throttled_once
          (indexEndpointPath env0 (gcpProjectId cfg0) (gcpRegion cfg0)
             (vertexAiIndexEndpointId cfg0))
          0 (batches_of UPSERT_BATCH_SIZE (replicate 101 ec_hello))"
    by blast
  then have "fst (upsertVectors (replicate 101 ec_hello) cfg0 (indexEndpointPath env0)
                     throttled_once) = 1"
    by (simp only: b p t)
  with sent show ?thesis by simp
qed

text \<open>
  C5, as stated, fails: the index client's first call is throttled and a second call would
  succeed, but the batch is sent once only and no upsert is counted.
\<close>

theorem upsert_not_retried:
  "throttled_once 0 req_hello = Inl (Error ''throttled'')
   \<and> throttled_once 1 req_hello = Inr ()
   \<and> upsertVectors [ec_hello] cfg0 (indexEndpointPath env0) throttled_once = (0, [req_hello])"
  by code_simp







text \<open>
  C7 (amended). A run that ends answers in one of two shapes. When \<open>runIngestion\<close>
  returns: HTTP 200 with \<open>status: success\<close>, the summary message, and the object
  returned as \<open>result\<close>, which holds \<open>filesProcessed\<close>, \<open>chunksGenerated\<close> and, when
  chunks were generated, \<open>chunksEmbedded\<close> (at most \<open>chunksGenerated\<close>), and holds
  neither \<open>documentsProcessed\<close> nor \<open>recordsUpserted\<close> nor \<open>errors\<close>. When it throws:
  HTTP 500 with \<open>status: error\<close> and the message of the error.
\<close>

theorem response_shape:
  "(runbookIngestionHttp w = Some (resp, calls) \<longrightarrow>
      (status_code resp = 200
         \<and> (\<exists>n g m. m \<le> g
               \<and> body resp = JObj [(''status'', JStr ''success''),
                                    (''message'', JStr (summary_message (result_of n g m))),
                                    (''result'', JObj (result_of n g m))])
       \<or> status_code resp = 500
         \<and> (\<exists>e. body resp = JObj [(''status'', JStr ''error''),
                                    (''message'', JStr (''Ingestion failed: '' @ message e))])))
   \<and> get_prop (result_of n g m) ''filesProcessed'' = JNum (int n)
   \<and> get_prop (result_of n g m) ''chunksGenerated'' = JNum (int g)
   \<and> (0 < g \<longrightarrow> get_prop (result_of n g m) ''chunksEmbedded'' = JNum (int m))
   \<and> get_prop (result_of n g m) ''documentsProcessed'' = JUndefined
   \<and> get_prop (result_of n g m) ''recordsUpserted'' = JUndefined
   \<and> get_prop (result_of n g m) ''errors'' = JUndefined"
proof (intro conjI impI)
  assume a: "runbookIngestionHttp w = Some (resp, calls)"
  then obtain outcome where run: "runIngestion w = Some (outcome, calls)"
    and resp: "resp = respond outcome"
    by (auto simp: runbookIngestionHttp_def split: option.splits prod.splits)
  from runIngestion_cases [OF run]
  show "status_code resp = 200
         \<and> (\<exists>n g m. m \<le> g
               \<and> body resp = JObj [(''status'', JStr ''success''),
                                    (''message'', JStr (summary_message (result_of n g m))),
                                    (''result'', JObj (result_of n g m))])
       \<or> status_code resp = 500
         \<and> (\<exists>e. body resp = JObj [(''status'', JStr ''error''),
                                    (''message'', JStr (''Ingestion failed: '' @ message e))])"
  proof
    assume "\<exists>e. outcome = Inl e"
    then show ?thesis using resp by (auto simp: respond_Inl)
  next
    assume "\<exists>n g m. outcome = Inr (result_of n g m) \<and> m \<le> g"
    then obtain n g m where out: "outcome = Inr (result_of n g m)" and le: "m \<le> g"
      by blast
    have s: "status_code resp = 200"
      using resp out by (simp add: respond_Inr)
    have b: "body resp = JObj [(''status'', JStr ''success''),
                               (''message'', JStr (summary_message (result_of n g m))),
                               (''result'', JObj (result_of n g m))]"
      using resp out by (simp add: respond_Inr)
    from s b le show ?thesis by blast
  qed
next
  assume "0 < g"
  then show "get_prop (result_of n g m) ''chunksEmbedded'' = JNum (int m)"
    by (rule result_of_chunksEmbedded)
qed (simp_all add: get_prop_result_of)

theorem response_shape_witness:
  "map_option fst (runbookIngestionHttp env_failed_download)
     = Some \<lparr>status_code = 200,
             body = JObj [(''status'', JStr ''success''),
                          (''message'', JStr ''Ingestion completed successfully. Processed 0 files, generated 0 chunks, embedded 0 chunks.''),
                          (''result'', JObj [(''filesProcessed'', JNum 0),
                                             (''chunksGenerated'', JNum 0),
                                             (''status'', JStr ''No chunks generated'')])]\<rparr>
   \<and> (\<exists>n g m. m \<le> g
         \<and> JObj [(''status'', JStr ''success''),
                  (''message'', JStr ''Ingestion completed successfully. Processed 0 files, generated 0 chunks, embedded 0 chunks.''),
                  (''result'', JObj [(''filesProcessed'', JNum 0),
                                     (''chunksGenerated'', JNum 0),
                                     (''status'', JStr ''No chunks generated'')])]
           = JObj [(''status'', JStr ''success''),
                   (''message'', JStr (summary_message (result_of n g m))),
                   (''result'', JObj (result_of n g m))])"
proof -
  let ?resp = "\<lparr>status_code = 200,
             body = JObj [(''status'', JStr ''success''),
                          (''message'', JStr ''Ingestion completed successfully. Processed 0 files, generated 0 chunks, embedded 0 chunks.''),
                          (''result'', JObj [(''filesProcessed'', JNum 0),
                                             (''chunksGenerated'', JNum 0),
                                             (''status'', JStr ''No chunks generated'')])]\<rparr>"
  have ev: "map_option fst (runbookIngestionHttp env_failed_download) = Some ?resp"
    by code_simp
  then obtain calls where "runbookIngestionHttp env_failed_download = Some (?resp, calls)"
    by (cases "runbookIngestionHttp env_failed_download") auto
  with response_shape [of env_failed_download ?resp calls]
  have "status_code ?resp = 200
         \<and> (\<exists>n g m. m \<le> g
               \<and> body ?resp = JObj [(''status'', JStr ''success''),
                                    (''message'', JStr (summary_message (result_of n g m))),
                                    (''result'', JObj (result_of n g m))])
       \<or> status_code ?resp = 500
         \<and> (\<exists>e. body ?resp = JObj [(''status'', JStr ''error''),
                                    (''message'', JStr (''Ingestion failed: '' @ message e))])"
    by blast
  then have "\<exists>n g m. m \<le> g
               \<and> body ?resp = JObj [(''status'', JStr ''success''),
                                    (''message'', JStr (summary_message (result_of n g m))),
                                    (''result'', JObj (result_of n g m))]"
    by simp
  with ev show ?thesis by simp
qed

text \<open>
  C7, as stated, fails: the run over an empty folder, in which nothing fails, and the run
  over a folder whose one file cannot be downloaded answer with the same body. Its status is
  \<open>success\<close>, which is none of the three values of the specification, and the object
  returned has no list of errors and no count of upserts.
\<close>

theorem status_is_success_despite_errors:
  "content_of env_failed_download file_b = JNull
   \<and> map_option fst (listDriveFiles (drive env_failed_download) (googleDriveFolderId cfg0))
       = Some (Inr [file_b])
   \<and> map_option fst (listDriveFiles (drive env_empty_folder) (googleDriveFolderId cfg0))
       = Some (Inr [])
   \<and> map_option (response_status \<circ> fst) (runbookIngestionHttp env_failed_download)
       = Some (JStr ''success'')
   \<and> map_option (response_status \<circ> fst) (runbookIngestionHttp env_empty_folder)
       = Some (JStr ''success'')
   \<and> map_option fst (runbookIngestionHttp env_failed_download)
       = map_option fst (runbookIngestionHttp env_empty_folder)
   \<and> JStr ''success'' \<notin> set spec_statuses
   \<and> map_option fst (runIngestion env_failed_download)
       = Some (Inr [(''filesProcessed'', JNum 0), (''chunksGenerated'', JNum 0),
                    (''status'', JStr ''No chunks generated'')])
   \<and> get_prop [(''filesProcessed'', JNum 0), (''chunksGenerated'', JNum 0),
                (''status'', JStr ''No chunks generated'')] ''errors'' = JUndefined
   \<and> get_prop [(''filesProcessed'', JNum 0), (''chunksGenerated'', JNum 0),
                (''status'', JStr ''No chunks generated'')] ''recordsUpserted'' = JUndefined"
  by code_simp

text \<open>
  C1. The code does not do what the claim says. As soon as one listed file yields a
  non-empty text, \<open>splitText\<close> throws at \<open>documents.forEach\<close>, the exception leaves the
  loop and \<open>runIngestion\<close>, and the trigger answers HTTP 500: the run aborts, whatever the
  other files do. So a run in which the extraction of one file fails and every other file
  yields a non-empty text aborts as soon as there is another file.
\<close>

theorem non_empty_text_aborts_run:
  "initialise w = Inr cfg
   \<and> listDriveFiles (drive w) (googleDriveFolderId cfg) = Some (Inr files, calls0)
   \<and> (\<exists>f \<in> set files. truthy (content_of w f) \<and> typeof (content_of w f) = ''string'')
   \<longrightarrow> (\<exists>calls.
          runIngestion w = Some (Inl (Error ''documents.forEach is not a function''), calls)
          \<and> runbookIngestionHttp w
              = Some (\<lparr>status_code = 500,
                        body = JObj [(''status'', JStr ''error''),
                                     (''message'',
                                      JStr ''Ingestion failed: documents.forEach is not a function'')]\<rparr>,
                      calls))"
proof
  assume a: "initialise w = Inr cfg
   \<and> listDriveFiles (drive w) (googleDriveFolderId cfg) = Some (Inr files, calls0)
   \<and> (\<exists>f \<in> set files. truthy (content_of w f) \<and> typeof (content_of w f) = ''string'')"
  then have "fst (process_files w files [] 0)
               = Inl (Error ''documents.forEach is not a function'')"
    by (simp add: process_files_raises)
  then have r: "fst (after_listing w cfg files)
                  = Inl (Error ''documents.forEach is not a function'')"
    by (rule after_listing_Inl)
  from a have "runIngestion w = Some (prepend_calls calls0 (after_listing w cfg files))"
    by (simp add: runIngestion_listed)
  with r have run: "runIngestion w
      = Some (Inl (Error ''documents.forEach is not a function''),
              calls0 @ snd (after_listing w cfg files))"
    by (simp add: prepend_calls_def)
  from runbookIngestionHttp_eq [OF run]
  have "runbookIngestionHttp w
      = Some (\<lparr>status_code = 500,
                body = JObj [(''status'', JStr ''error''),
                             (''message'',
                              JStr ''Ingestion failed: documents.forEach is not a function'')]\<rparr>,
              calls0 @ snd (after_listing w cfg files))"
    by (simp add: respond_Inl)
  with run show "\<exists>calls.
          runIngestion w = Some (Inl (Error ''documents.forEach is not a function''), calls)
          \<and> runbookIngestionHttp w
              = Some (\<lparr>status_code = 500,
                        body = JObj [(''status'', JStr ''error''),
                                     (''message'',
                                      JStr ''Ingestion failed: documents.forEach is not a function'')]\<rparr>,
                      calls)"
    by blast
qed

theorem non_empty_text_aborts_run_witness:
  "content_of env0 file_a = JStr ''hello''
   \<and> content_of env0 file_b = JNull
   \<and> map_option fst (runbookIngestionHttp env0)
       = Some \<lparr>status_code = 500,
               body = JObj [(''status'', JStr ''error''),
                            (''message'',
                             JStr ''Ingestion failed: documents.forEach is not a function'')]\<rparr>"
proof -
  obtain calls0 where l: "listDriveFiles (drive env0) (googleDriveFolderId cfg0)
      = Some (Inr [file_a, file_b], calls0)"
    using listed_env0 by (cases "listDriveFiles (drive env0) (googleDriveFolderId cfg0)") auto
  have i: "initialise env0 = Inr cfg0"
    by code_simp
  have a: "content_of env0 file_a = JStr ''hello''"
    by code_simp
  have b: "content_of env0 file_b = JNull"
    by code_simp
  from a have "\<exists>f \<in> set [file_a, file_b].
      truthy (content_of env0 f) \<and> typeof (content_of env0 f) = ''string''"
    by simp
  with non_empty_text_aborts_run [of env0 cfg0 "[file_a, file_b]" calls0] i l
  obtain calls where "runbookIngestionHttp env0
      = Some (\<lparr>status_code = 500,
                body = JObj [(''status'', JStr ''error''),
                             (''message'',
                              JStr ''Ingestion failed: documents.forEach is not a function'')]\<rparr>,
              calls)"
    by blast
  with a b show ?thesis by simp
qed

text \<open>
  C3. The code does not do what the claim says. For every text that passes the guard (a
  non-empty string), \<open>splitText\<close> calls the splitter and then throws at
  \<open>documents.forEach\<close>; when it returns, it returns no chunk. So no chunk sequence is
  ever produced and no chunk id \<open>documentId_chunk_ordinal\<close> is ever assigned.
\<close>

theorem splitText_assigns_no_id:
  "(truthy content \<and> typeof content = ''string'' \<longrightarrow>
      splitText splitter content f
        = (Inl (Error ''documents.forEach is not a function''),
           [SplitCall (the_string content)]))
   \<and> (fst (splitText splitter content f) = Inr chunks \<longrightarrow> chunks = [])"
  using splitText_raises [of content splitter f] splitText_Inr_Nil [of splitter content f chunks]
  by blast

theorem splitText_assigns_no_id_witness:
  "splitText (createDocuments env0) (JStr ''hello'') file_a
     = (Inl (Error ''documents.forEach is not a function''), [SplitCall ''hello''])"
proof -
  have "truthy (JStr ''hello'') \<and> typeof (JStr ''hello'') = ''string''"
    by simp
  with splitText_assigns_no_id [of "JStr ''hello''" "createDocuments env0" file_a]
  have "splitText (createDocuments env0) (JStr ''hello'') file_a
     = (Inl (Error ''documents.forEach is not a function''),
        [SplitCall (the_string (JStr ''hello''))])"
    by blast
  then show ?thesis by simp
qed

text \<open>
  C8. The code does what the claim says of the empty text and not what it says of a short
  text. Chunking the empty text yields no chunk and raises nothing (the splitter is not
  called), and a file whose text is empty changes neither the chunks nor the count of the
  run, which goes on with the next file. But for a non-empty text shorter than
  \<open>CHUNK_SIZE = 1000\<close> characters \<open>splitText\<close> yields no chunk: it throws at
  \<open>documents.forEach\<close>.
\<close>

theorem empty_text_skipped_short_text_raises:
  "splitText splitter (JStr []) f = (Inr [], [])
   \<and> (content_of w f = JStr [] \<longrightarrow>
        process_files w (f # rest) acc n
          = prepend_calls (snd (getFileContent (drive w) (pdf w) f))
              (process_files w rest acc n))
   \<and> CHUNK_SIZE = 1000
   \<and> (t \<noteq> [] \<and> length t < CHUNK_SIZE \<longrightarrow>
        splitText splitter (JStr t) f
          = (Inl (Error ''documents.forEach is not a function''), [SplitCall t]))"
proof (intro conjI impI)
  show "splitText splitter (JStr []) f = (Inr [], [])"
    by (simp add: splitText_guard)
  show "CHUNK_SIZE = 1000"
    by (simp add: CHUNK_SIZE_def)
next
  assume "content_of w f = JStr []"
  then have "\<not> truthy (content_of w f)" by simp
  then show "process_files w (f # rest) acc n
          = prepend_calls (snd (getFileContent (drive w) (pdf w) f))
              (process_files w rest acc n)"
    by (rule process_files_skip)
next
  assume "t \<noteq> [] \<and> length t < CHUNK_SIZE"
  then show "splitText splitter (JStr t) f
          = (Inl (Error ''documents.forEach is not a function''), [SplitCall t])"
    using splitText_raises [of "JStr t" splitter f] by simp
qed

theorem empty_text_skipped_short_text_raises_witness:
  "content_of env_empty_text file_a = JStr []
   \<and> fst (process_files env_empty_text [file_a] [] 0) = Inr ([], 0)
   \<and> fst (splitText (createDocuments env0) (JStr ''hello'') file_a)
       = Inl (Error ''documents.forEach is not a function'')"
proof -
  note w = empty_text_skipped_short_text_raises
    [of "createDocuments env0" file_a env_empty_text "[]" "[]" 0 "''hello''"]
  have c: "content_of env_empty_text file_a = JStr []"
    by code_simp
  with w have "process_files env_empty_text [file_a] [] 0
      = prepend_calls (snd (getFileContent (drive env_empty_text) (pdf env_empty_text) file_a))
          (process_files env_empty_text [] [] 0)"
    by blast
  then have p: "fst (process_files env_empty_text [file_a] [] 0) = Inr ([], 0)"
    by (simp del: process_files.simps(2))
  have "''hello'' \<noteq> [] \<and> length ''hello'' < CHUNK_SIZE"
    by (simp add: CHUNK_SIZE_def)
  with w have "splitText (createDocuments env0) (JStr ''hello'') file_a
      = (Inl (Error ''documents.forEach is not a function''), [SplitCall ''hello''])"
    by blast
  then have "fst (splitText (createDocuments env0) (JStr ''hello'') file_a)
      = Inl (Error ''documents.forEach is not a function'')"
    by simp
  with c p show ?thesis by simp
qed

end
